theory Spec2Isabelle
  imports Main
begin

section \<open>The always-on-top toolbar component (AlwaysOnTop.js)\<close>

subsection \<open>JavaScript values held in the component state\<close>

text \<open>
  The media fields of \<open>this.state\<close> are assigned whatever an API event or an API query
  delivers, so they range over the booleans and \<open>undefined\<close>.
\<close>

datatype jsval = JUndefined | JBool bool

fun truthy :: "jsval \<Rightarrow> bool" where
  "truthy JUndefined = False"
| "truthy (JBool b) = b"

text \<open>A default value of a destructuring pattern (\<open>x = false\<close>) applies to \<open>undefined\<close> only.\<close>

fun withDefault :: "jsval \<Rightarrow> jsval \<Rightarrow> jsval" where
  "withDefault d JUndefined = d"
| "withDefault d (JBool b) = JBool b"

subsection \<open>Component state and its environment\<close>

text \<open>\<open>this.state\<close>, as the constructor lays it out. \<open>visible\<close> is only ever assigned a literal.\<close>

record comp_state =
  visible :: bool
  audioMuted :: jsval
  videoMuted :: jsval
  audioEnabled :: jsval
  videoEnabled :: jsval

text \<open>
  The status object that the API passes to a listener, given by its two fields \<open>muted\<close> and
  \<open>enabled\<close>, in this order; a field that the object lacks reads as \<open>undefined\<close>.
\<close>

datatype payload = Payload jsval jsval

text \<open>The bound methods that the component hands to the external API and to the window.\<close>

datatype apiHandler =
  AudioEnabledListener | AudioMutedListener | VideoEnabledListener | VideoMutedListener

datatype windowHandler = MouseMove

text \<open>
  The component together with what it acts on: the instance field \<open>_hovered\<close>, the clock
  and the pending \<open>setTimeout\<close> callbacks (each given by the time it is due; the component
  schedules one kind of callback only), the listeners registered on the API object and on
  the window, the lines written with \<open>console.error\<close>, the number of update cycles
  (\<open>componentWillUpdate\<close> followed by \<open>render\<close>) that \<open>setState\<close> has started, and
  whether React currently holds the instance as mounted.
\<close>

record world =
  state :: comp_state
  hovered :: bool
  now :: nat
  timers :: "nat list"
  apiListeners :: "(string \<times> apiHandler) list"
  windowListeners :: "(string \<times> windowHandler) list"
  console :: "string list"
  renders :: nat
  mounted :: bool

definition TOOLBAR_TIMEOUT :: nat where
  "TOOLBAR_TIMEOUT = 4000"

subsection \<open>The external collaborators\<close>

text \<open>
  Modelled from the spec: the subscribe/unsubscribe capability of the external API object
  (\<open>window.alwaysOnTop.api\<close>) and of the window, whose code is not part of the component.
  \<open>on\<close> appends a (topic, handler) pair; \<open>removeListener\<close> removes one registration of
  exactly that pair and does nothing when there is none.
\<close>

definition api_on :: "string \<Rightarrow> apiHandler \<Rightarrow> world \<Rightarrow> world" where
  "api_on topic h w = w\<lparr>apiListeners := apiListeners w @ [(topic, h)]\<rparr>"

definition api_removeListener :: "string \<Rightarrow> apiHandler \<Rightarrow> world \<Rightarrow> world" where
  "api_removeListener topic h w = w\<lparr>apiListeners := remove1 (topic, h) (apiListeners w)\<rparr>"

definition window_addEventListener :: "string \<Rightarrow> windowHandler \<Rightarrow> world \<Rightarrow> world" where
  "window_addEventListener ty h w = w\<lparr>windowListeners := windowListeners w @ [(ty, h)]\<rparr>"

definition window_removeEventListener :: "string \<Rightarrow> windowHandler \<Rightarrow> world \<Rightarrow> world" where
  "window_removeEventListener ty h w =
     w\<lparr>windowListeners := remove1 (ty, h) (windowListeners w)\<rparr>"

text \<open>\<open>setTimeout(callback, delay)\<close>: the callback becomes due \<open>delay\<close> ms from now.\<close>

definition setTimeout :: "nat \<Rightarrow> world \<Rightarrow> world" where
  "setTimeout delay w = w\<lparr>timers := timers w @ [now w + delay]\<rparr>"

definition console_error :: "string \<Rightarrow> world \<Rightarrow> world" where
  "console_error msg w = w\<lparr>console := console w @ [msg]\<rparr>"

subsection \<open>The component's methods\<close>

definition constructor :: "nat \<Rightarrow> world" where
  "constructor t0 =
     \<lparr>state = \<lparr>visible = True, audioMuted = JBool False, videoMuted = JBool False,
                audioEnabled = JBool False, videoEnabled = JBool False\<rparr>,
      hovered = False, now = t0, timers = [], apiListeners = [], windowListeners = [],
      console = [], renders = 0, mounted = False\<rparr>"

definition hideToolbarAfterTimeout :: "world \<Rightarrow> world" where
  "hideToolbarAfterTimeout w = setTimeout TOOLBAR_TIMEOUT w"

definition componentWillUpdate :: "comp_state \<Rightarrow> world \<Rightarrow> world" where
  "componentWillUpdate nextState w =
     (if \<not> visible (state w) \<and> visible nextState then hideToolbarAfterTimeout w else w)"

text \<open>
  \<open>this.setState(partial)\<close>, called outside of any batching. On a mounted instance the
  partial state is merged into the current one, \<open>componentWillUpdate\<close> runs while
  \<open>this.state\<close> is still the old state, then the new state is installed and the component
  renders again. On an instance that is not mounted React discards the update: no state is
  written, no lifecycle method runs, nothing renders.
\<close>

definition setState :: "(comp_state \<Rightarrow> comp_state) \<Rightarrow> world \<Rightarrow> world" where
  "setState partial w =
     (if mounted w
      then (let nextState = partial (state w);
                w1 = componentWillUpdate nextState w
            in w1\<lparr>state := nextState, renders := Suc (renders w1)\<rparr>)
      else w)"

fun audioEnabledListener :: "payload \<Rightarrow> world \<Rightarrow> world" where
  "audioEnabledListener (Payload muted enabled) w =
     setState (\<lambda>s. s\<lparr>audioEnabled := enabled\<rparr>) w"

fun audioMutedListener :: "payload \<Rightarrow> world \<Rightarrow> world" where
  "audioMutedListener (Payload muted enabled) w =
     setState (\<lambda>s. s\<lparr>audioMuted := muted\<rparr>) w"

text \<open>The callback that \<open>_hideToolbarAfterTimeout\<close> passes to \<open>setTimeout\<close>.\<close>

definition timeoutCallback :: "world \<Rightarrow> world" where
  "timeoutCallback w =
     (if hovered w then hideToolbarAfterTimeout w
      else setState (\<lambda>s. s\<lparr>visible := False\<rparr>) w)"

definition mouseMove :: "world \<Rightarrow> world" where
  "mouseMove w = (if \<not> visible (state w) then setState (\<lambda>s. s\<lparr>visible := True\<rparr>) w else w)"

definition onMouseOver :: "world \<Rightarrow> world" where
  "onMouseOver w = w\<lparr>hovered := True\<rparr>"

definition onMouseOut :: "world \<Rightarrow> world" where
  "onMouseOut w = w\<lparr>hovered := False\<rparr>"

fun videoEnabledListener :: "payload \<Rightarrow> world \<Rightarrow> world" where
  "videoEnabledListener (Payload muted enabled) w =
     setState (\<lambda>s. s\<lparr>videoMuted := enabled\<rparr>) w"

fun videoMutedListener :: "payload \<Rightarrow> world \<Rightarrow> world" where
  "videoMutedListener (Payload muted enabled) w =
     setState (\<lambda>s. s\<lparr>videoMuted := muted\<rparr>) w"

text \<open>
  \<open>componentDidMount\<close>. The combined state query it starts settles later, through
  \<open>queryResolved\<close> or \<open>queryRejected\<close> below.
\<close>

definition componentDidMount :: "world \<Rightarrow> world" where
  "componentDidMount w =
     hideToolbarAfterTimeout
       (window_addEventListener ''mousemove'' MouseMove
         (api_on ''videoEnabledStatusChanged'' VideoEnabledListener
           (api_on ''audioEnabledStatusChanged'' AudioEnabledListener
             (api_on ''videoMuteStatusChanged'' VideoMutedListener
               (api_on ''audioMuteStatusChanged'' AudioMutedListener w)))))"

definition componentWillUnmount :: "world \<Rightarrow> world" where
  "componentWillUnmount w =
     window_removeEventListener ''mousemove'' MouseMove
       (api_removeListener ''videoAvailabilityChanged'' VideoEnabledListener
         (api_removeListener ''audioAvailabilityChanged'' AudioEnabledListener
           (api_removeListener ''videoMuteStatusChanged'' VideoMutedListener
             (api_removeListener ''audioMuteStatusChanged'' AudioMutedListener w))))"

text \<open>
  The \<open>then\<close> handler of the combined query: the array of the four results is destructured
  with \<open>false\<close> as the default of each position.
\<close>

definition queryResolved :: "jsval \<times> jsval \<times> jsval \<times> jsval \<Rightarrow> world \<Rightarrow> world" where
  "queryResolved r w =
     (case r of (am, vm, ae, ve) \<Rightarrow>
        setState (\<lambda>s. s\<lparr>audioMuted := withDefault (JBool False) am,
                        videoMuted := withDefault (JBool False) vm,
                        audioEnabled := withDefault (JBool False) ae,
                        videoEnabled := withDefault (JBool False) ve\<rparr>) w)"

text \<open>The \<open>catch\<close> handler of the combined query is \<open>console.error\<close> itself.\<close>

definition queryRejected :: "string \<Rightarrow> world \<Rightarrow> world" where
  "queryRejected reason w = console_error reason w"

text \<open>
  \<open>Promise.all\<close> over the four queries, each either rejected with a reason (\<open>Inl\<close>) or
  resolved with a value: the combined promise resolves only when all four do.
\<close>

fun promise_all :: "(string + jsval) \<times> (string + jsval) \<times> (string + jsval) \<times> (string + jsval)
    \<Rightarrow> string + (jsval \<times> jsval \<times> jsval \<times> jsval)" where
  "promise_all (Inr a, Inr b, Inr c, Inr d) = Inr (a, b, c, d)"
| "promise_all (Inl e, _, _, _) = Inl e"
| "promise_all (_, Inl e, _, _) = Inl e"
| "promise_all (_, _, Inl e, _) = Inl e"
| "promise_all (_, _, _, Inl e) = Inl e"

definition querySettled ::
  "(string + jsval) \<times> (string + jsval) \<times> (string + jsval) \<times> (string + jsval) \<Rightarrow> world \<Rightarrow> world"
where
  "querySettled results w =
     (case promise_all results of Inl reason \<Rightarrow> queryRejected reason w
      | Inr r \<Rightarrow> queryResolved r w)"

subsection \<open>Rendering\<close>

datatype action = ExecuteCommand string | WindowClose

text \<open>A toolbar button descriptor; \<open>onClick\<close> is given by the actions it performs, in order.\<close>

record button =
  classNames :: "string list"
  enabled :: jsval
  buttonId :: string
  onClick :: "action list"

text \<open>The descriptor that \<open>render\<close> passes on: the descriptor's fields and \<open>toggled\<close>.\<close>

record updatedButton = button +
  toggled :: jsval

text \<open>The descriptor map, as the list of its entries in the order of the object literal.\<close>

definition toolbarButtons :: "(string \<times> button) list" where
  "toolbarButtons =
     [(''camera'',
       \<lparr>classNames = [''button'', ''icon-camera''], enabled = JBool True,
        buttonId = ''toolbar_button_camera'', onClick = [ExecuteCommand ''toggleVideo'']\<rparr>),
      (''hangup'',
       \<lparr>classNames = [''button'', ''icon-hangup'', ''button_hangup''], enabled = JBool True,
        buttonId = ''toolbar_button_hangup'',
        onClick = [ExecuteCommand ''hangup'', WindowClose]\<rparr>),
      (''microphone'',
       \<lparr>classNames = [''button'', ''icon-microphone''], enabled = JBool True,
        buttonId = ''toolbar_button_mute'', onClick = [ExecuteCommand ''toggleAudio'']\<rparr>)]"

text \<open>
  The body of the function that \<open>render\<close> maps over the entries: the \<open>switch\<close> on the
  key, then the spread of the descriptor with \<open>enabled\<close> and \<open>toggled\<close> replaced.
\<close>

definition renderButton :: "comp_state \<Rightarrow> string \<times> button \<Rightarrow> string \<times> updatedButton" where
  "renderButton s entry =
     (case entry of (key, b) \<Rightarrow>
        (case (if key = ''microphone''
               then (audioEnabled s, if truthy (audioEnabled s) then audioMuted s else JBool True)
               else if key = ''camera''
               then (videoEnabled s, if truthy (videoEnabled s) then videoMuted s else JBool True)
               else (JBool True, JBool False))
         of (en, tg) \<Rightarrow>
           (key, \<lparr>classNames = classNames b, enabled = en, buttonId = buttonId b,
                  onClick = onClick b, toggled = tg\<rparr>)))"

record rendered =
  className :: string
  buttons :: "(string \<times> updatedButton) list"

definition render :: "world \<Rightarrow> rendered" where
  "render w =
     \<lparr>className = ''toolbar_primary '' @ (if visible (state w) then ''fadeIn'' else ''fadeOut''),
      buttons = map (renderButton (state w)) toolbarButtons\<rparr>"

text \<open>The view-model that \<open>render\<close> produces for a key, if the key is rendered at all.\<close>

definition viewModel :: "world \<Rightarrow> string \<Rightarrow> updatedButton option" where
  "viewModel w key = map_of (buttons (render w)) key"

subsection \<open>Time\<close>

text \<open>The earliest due time among the pending callbacks.\<close>

fun earliest :: "nat list \<Rightarrow> nat option" where
  "earliest [] = None"
| "earliest (d # ds) = (case earliest ds of None \<Rightarrow> Some d | Some e \<Rightarrow> Some (min d e))"

text \<open>The pending callback due at \<open>d\<close> runs: the clock reaches \<open>d\<close> and the callback is spent.\<close>

definition fire :: "nat \<Rightarrow> world \<Rightarrow> world" where
  "fire d w = timeoutCallback (w\<lparr>now := max (now w) d, timers := remove1 d (timers w)\<rparr>)"

lemma earliest_mem: "earliest ds = Some d \<Longrightarrow> d \<in> set ds"
proof (induction ds arbitrary: d)
  case Nil
  then show ?case by simp
next
  case (Cons a ds)
  show ?case
  proof (cases "earliest ds")
    case None
    with Cons.prems show ?thesis by simp
  next
    case (Some e)
    then have "e \<in> set ds" by (rule Cons.IH)
    moreover have "d = min a e" using Cons.prems Some by simp
    ultimately show ?thesis by (auto simp: min_def)
  qed
qed

lemma timers_fire:
  "timers (fire d w) =
     (if hovered w then remove1 d (timers w) @ [max (now w) d + TOOLBAR_TIMEOUT]
      else remove1 d (timers w))"
  by (simp add: fire_def timeoutCallback_def hideToolbarAfterTimeout_def setTimeout_def
      setState_def componentWillUpdate_def)

lemma fire_decreases:
  assumes "earliest (timers w) = Some d" and "d \<le> T"
  shows "(\<Sum>x\<leftarrow>timers (fire d w). Suc T - x) < (\<Sum>x\<leftarrow>timers w. Suc T - x)"
proof -
  define R where "R = (\<Sum>x\<leftarrow>remove1 d (timers w). Suc T - x)"
  define b where "b = Suc T - (max (now w) d + TOOLBAR_TIMEOUT)"
  have mem: "d \<in> set (timers w)" using assms(1) by (rule earliest_mem)
  have total: "(\<Sum>x\<leftarrow>timers w. Suc T - x) = (Suc T - d) + R"
    unfolding R_def using mem by (rule sum_list_map_remove1)
  have b: "b < Suc T - d"
    using assms(2) unfolding b_def TOOLBAR_TIMEOUT_def by (cases "now w \<le> d") simp_all
  have after: "(\<Sum>x\<leftarrow>timers (fire d w). Suc T - x) = (if hovered w then R + b else R)"
    by (simp add: timers_fire R_def b_def)
  show ?thesis
  proof (cases "hovered w")
    case True
    then show ?thesis unfolding total after using b by arith
  next
    case False
    then show ?thesis unfolding total after using b by arith
  qed
qed

text \<open>
  The event loop runs the pending callbacks that are due up to time \<open>T\<close>, earliest first;
  a callback may schedule a new one, which runs too when it is due by \<open>T\<close>.
\<close>

function run_until :: "nat \<Rightarrow> world \<Rightarrow> world" where
  "run_until T w =
     (case earliest (timers w) of
        None \<Rightarrow> w\<lparr>now := max (now w) T\<rparr>
      | Some d \<Rightarrow> if d \<le> T then run_until T (fire d w) else w\<lparr>now := max (now w) T\<rparr>)"
  by pat_completeness auto
termination
  by (relation "measure (\<lambda>(T, w). \<Sum>x\<leftarrow>timers w. Suc T - x)") (simp_all add: fire_decreases)

definition elapse :: "nat \<Rightarrow> world \<Rightarrow> world" where
  "elapse ms w = run_until (now w + ms) w"

subsection \<open>Events\<close>

fun callApiHandler :: "apiHandler \<Rightarrow> payload \<Rightarrow> world \<Rightarrow> world" where
  "callApiHandler AudioEnabledListener p w = audioEnabledListener p w"
| "callApiHandler AudioMutedListener p w = audioMutedListener p w"
| "callApiHandler VideoEnabledListener p w = videoEnabledListener p w"
| "callApiHandler VideoMutedListener p w = videoMutedListener p w"

fun callWindowHandler :: "windowHandler \<Rightarrow> world \<Rightarrow> world" where
  "callWindowHandler MouseMove w = mouseMove w"

text \<open>
  Modelled from the spec: how the external API and the window deliver an event, namely to
  the handlers registered for its topic when the event is emitted, in registration order.
\<close>

definition api_emit :: "string \<Rightarrow> payload \<Rightarrow> world \<Rightarrow> world" where
  "api_emit topic p w =
     foldl (\<lambda>w' h. callApiHandler h p w') w
       (map snd (filter (\<lambda>l. fst l = topic) (apiListeners w)))"

definition window_dispatchEvent :: "string \<Rightarrow> world \<Rightarrow> world" where
  "window_dispatchEvent ty w =
     foldl (\<lambda>w' h. callWindowHandler h w') w
       (map snd (filter (\<lambda>l. fst l = ty) (windowListeners w)))"

text \<open>
  What can happen to a mounted component: the pointer moves in the window, enters or leaves
  the toolbar (the \<open>onMouseOver\<close> and \<open>onMouseOut\<close> props of the rendered toolbar), time
  passes, the API emits an event, the combined query settles.
\<close>

datatype event =
  PointerMove | PointerEnter | PointerLeave | Elapse nat | ApiEvent string payload
  | QuerySettled "(string + jsval) \<times> (string + jsval) \<times> (string + jsval) \<times> (string + jsval)"

fun step :: "event \<Rightarrow> world \<Rightarrow> world" where
  "step PointerMove w = window_dispatchEvent ''mousemove'' w"
| "step PointerEnter w = onMouseOver w"
| "step PointerLeave w = onMouseOut w"
| "step (Elapse ms) w = elapse ms w"
| "step (ApiEvent topic p) w = api_emit topic p w"
| "step (QuerySettled results) w = querySettled results w"

fun run :: "event list \<Rightarrow> world \<Rightarrow> world" where
  "run [] w = w"
| "run (e # es) w = run es (step e w)"

text \<open>
  Activation: the component is constructed at time \<open>t0\<close>, React mounts it and calls
  \<open>componentDidMount\<close>.
\<close>

definition activate :: "nat \<Rightarrow> world" where
  "activate t0 = componentDidMount ((constructor t0)\<lparr>mounted := True\<rparr>)"

text \<open>
  Deactivation: React calls \<open>componentWillUnmount\<close> and removes the instance, which is not
  mounted from then on.
\<close>

definition deactivate :: "world \<Rightarrow> world" where
  "deactivate w = (componentWillUnmount w)\<lparr>mounted := False\<rparr>"

text \<open>
  The timer discipline of the visibility machine of a mounted component: while the toolbar
  is visible exactly one hide callback is pending, while it is hidden none is.
\<close>

definition timer_inv :: "world \<Rightarrow> bool" where
  "timer_inv w = (mounted w \<and> length (timers w) = (if visible (state w) then 1 else 0))"

section \<open>Basic facts\<close>

lemmas mount_defs = activate_def deactivate_def componentDidMount_def componentWillUnmount_def
  constructor_def
  hideToolbarAfterTimeout_def setTimeout_def window_addEventListener_def api_on_def
  window_removeEventListener_def api_removeListener_def TOOLBAR_TIMEOUT_def

lemma state_setState: "state (setState f w) = (if mounted w then f (state w) else state w)"
  by (simp add: setState_def Let_def componentWillUpdate_def hideToolbarAfterTimeout_def
      setTimeout_def)

lemma mounted_setState: "mounted (setState f w) = mounted w"
  by (simp add: setState_def Let_def componentWillUpdate_def hideToolbarAfterTimeout_def
      setTimeout_def)

lemma setState_unmounted: "\<not> mounted w \<Longrightarrow> setState f w = w"
  by (simp add: setState_def)

lemma setState_keeps_visible:
  "visible (f (state w)) = visible (state w) \<Longrightarrow>
   setState f w
     = (if mounted w then w\<lparr>state := f (state w), renders := Suc (renders w)\<rparr> else w)"
  by (simp add: setState_def Let_def componentWillUpdate_def)

lemma media_listeners_update_own_field:
  "mounted w \<Longrightarrow>
   state (audioMutedListener (Payload m e) w) = (state w)\<lparr>audioMuted := m\<rparr>
   \<and> state (videoMutedListener (Payload m e) w) = (state w)\<lparr>videoMuted := m\<rparr>
   \<and> state (audioEnabledListener (Payload m e) w) = (state w)\<lparr>audioEnabled := e\<rparr>"
  by (simp add: state_setState)

lemma foldl_preserves:
  assumes "\<And>v h. P v \<Longrightarrow> P (f v h)" and "P w"
  shows "P (foldl f w hs)"
  using assms(2) by (induction hs arbitrary: w) (simp_all add: assms(1))

subsection \<open>One turn of the event loop\<close>

lemma run_until_idle:
  "earliest (timers w) = None \<Longrightarrow> run_until T w = w\<lparr>now := max (now w) T\<rparr>"
  by simp

lemma run_until_later:
  "earliest (timers w) = Some d \<Longrightarrow> T < d \<Longrightarrow> run_until T w = w\<lparr>now := max (now w) T\<rparr>"
  by simp

lemma run_until_fire:
  "earliest (timers w) = Some d \<Longrightarrow> d \<le> T \<Longrightarrow> run_until T w = run_until T (fire d w)"
  by simp

declare run_until.simps [simp del]

lemma fire_hovered:
  "hovered w \<Longrightarrow>
   fire d w = w\<lparr>now := max (now w) d,
                timers := remove1 d (timers w) @ [max (now w) d + 4000]\<rparr>"
  by (simp add: fire_def timeoutCallback_def hideToolbarAfterTimeout_def setTimeout_def
      TOOLBAR_TIMEOUT_def)

lemma fire_not_hovered:
  "mounted w \<Longrightarrow> \<not> hovered w \<Longrightarrow>
   fire d w = w\<lparr>now := max (now w) d, timers := remove1 d (timers w),
                state := (state w)\<lparr>visible := False\<rparr>, renders := Suc (renders w)\<rparr>"
  by (simp add: fire_def timeoutCallback_def setState_def Let_def componentWillUpdate_def)

lemma fire_unmounted:
  "\<not> mounted w \<Longrightarrow> \<not> hovered w \<Longrightarrow>
   fire d w = w\<lparr>now := max (now w) d, timers := remove1 d (timers w)\<rparr>"
  by (simp add: fire_def timeoutCallback_def setState_def)

lemma mounted_fire: "mounted (fire d w) = mounted w"
  by (simp add: fire_def timeoutCallback_def mounted_setState hideToolbarAfterTimeout_def
      setTimeout_def)

lemmas time_simps = elapse_def run_until_fire run_until_idle run_until_later
  fire_not_hovered fire_unmounted fire_hovered

subsection \<open>What the media callbacks leave alone\<close>

lemma callApiHandler_media:
  "\<exists>f. (\<forall>s. visible (f s) = visible s) \<and> callApiHandler h p w = setState f w"
proof (cases p)
  case (Payload m e)
  show ?thesis
  proof (cases h)
    case AudioEnabledListener
    have "(\<forall>s. visible (s\<lparr>audioEnabled := e\<rparr>) = visible s)
        \<and> callApiHandler h p w = setState (\<lambda>s. s\<lparr>audioEnabled := e\<rparr>) w"
      using Payload AudioEnabledListener by simp
    then show ?thesis by blast
  next
    case AudioMutedListener
    have "(\<forall>s. visible (s\<lparr>audioMuted := m\<rparr>) = visible s)
        \<and> callApiHandler h p w = setState (\<lambda>s. s\<lparr>audioMuted := m\<rparr>) w"
      using Payload AudioMutedListener by simp
    then show ?thesis by blast
  next
    case VideoEnabledListener
    have "(\<forall>s. visible (s\<lparr>videoMuted := e\<rparr>) = visible s)
        \<and> callApiHandler h p w = setState (\<lambda>s. s\<lparr>videoMuted := e\<rparr>) w"
      using Payload VideoEnabledListener by simp
    then show ?thesis by blast
  next
    case VideoMutedListener
    have "(\<forall>s. visible (s\<lparr>videoMuted := m\<rparr>) = visible s)
        \<and> callApiHandler h p w = setState (\<lambda>s. s\<lparr>videoMuted := m\<rparr>) w"
      using Payload VideoMutedListener by simp
    then show ?thesis by blast
  qed
qed

lemma callApiHandler_frame:
  "visible (state (callApiHandler h p w)) = visible (state w)
   \<and> timers (callApiHandler h p w) = timers w
   \<and> mounted (callApiHandler h p w) = mounted w"
proof -
  obtain f where f: "\<forall>s. visible (f s) = visible s" "callApiHandler h p w = setState f w"
    using callApiHandler_media by blast
  show ?thesis
    using f(1) by (simp add: f(2) setState_keeps_visible)
qed

lemma api_emit_frame:
  "visible (state (api_emit topic p w)) = visible (state w)
   \<and> timers (api_emit topic p w) = timers w
   \<and> mounted (api_emit topic p w) = mounted w"
  unfolding api_emit_def
  by (rule foldl_preserves
        [where P = "\<lambda>v. visible (state v) = visible (state w) \<and> timers v = timers w
                      \<and> mounted v = mounted w"])
     (simp_all add: callApiHandler_frame)

lemma querySettled_frame:
  "visible (state (querySettled r w)) = visible (state w)
   \<and> timers (querySettled r w) = timers w
   \<and> mounted (querySettled r w) = mounted w"
  by (cases "promise_all r")
     (auto simp: querySettled_def queryRejected_def console_error_def queryResolved_def
        setState_keeps_visible split: prod.splits)

subsection \<open>The timer discipline is an invariant\<close>

lemma mouseMove_inv: "timer_inv w \<Longrightarrow> timer_inv (mouseMove w)"
  by (simp add: timer_inv_def mouseMove_def setState_def Let_def componentWillUpdate_def
      hideToolbarAfterTimeout_def setTimeout_def)

lemma window_dispatchEvent_inv: "timer_inv w \<Longrightarrow> timer_inv (window_dispatchEvent ty w)"
  unfolding window_dispatchEvent_def
proof (rule foldl_preserves [where P = timer_inv])
  fix v h assume "timer_inv v"
  then show "timer_inv (callWindowHandler h v)" by (cases h) (simp add: mouseMove_inv)
qed

lemma fire_inv:
  assumes "timer_inv w" and "d \<in> set (timers w)"
  shows "timer_inv (fire d w)"
proof -
  from assms have vis: "visible (state w)" and one: "timers w = [d]" and mnt: "mounted w"
    by (auto simp: timer_inv_def length_Suc_conv split: if_splits)
  show ?thesis
  proof (cases "hovered w")
    case True
    then show ?thesis using vis one mnt by (simp add: fire_hovered timer_inv_def)
  next
    case False
    then show ?thesis using one mnt by (simp add: fire_not_hovered timer_inv_def)
  qed
qed

lemma run_until_inv: "timer_inv w \<Longrightarrow> timer_inv (run_until T w)"
proof (induction T w rule: run_until.induct)
  case (1 T w)
  show ?case
  proof (cases "earliest (timers w)")
    case None
    then show ?thesis using "1.prems" by (simp add: run_until_idle timer_inv_def)
  next
    case (Some d)
    show ?thesis
    proof (cases "d \<le> T")
      case True
      have "timer_inv (fire d w)"
        using "1.prems" Some by (intro fire_inv earliest_mem)
      then have "timer_inv (run_until T (fire d w))"
        using Some True by (rule "1.IH"[rotated 2])
      then show ?thesis using Some True by (simp add: run_until_fire)
    next
      case False
      then show ?thesis using Some "1.prems" by (simp add: run_until_later timer_inv_def)
    qed
  qed
qed

lemma step_inv: "timer_inv w \<Longrightarrow> timer_inv (step e w)"
proof (cases e)
  case PointerMove
  assume "timer_inv w"
  then show ?thesis using PointerMove by (simp add: window_dispatchEvent_inv)
next
  case PointerEnter
  assume "timer_inv w"
  then show ?thesis using PointerEnter by (simp add: timer_inv_def onMouseOver_def)
next
  case PointerLeave
  assume "timer_inv w"
  then show ?thesis using PointerLeave by (simp add: timer_inv_def onMouseOut_def)
next
  case (Elapse ms)
  assume "timer_inv w"
  then show ?thesis using Elapse by (simp add: elapse_def run_until_inv)
next
  case (ApiEvent topic p)
  assume "timer_inv w"
  then show ?thesis using ApiEvent by (simp add: timer_inv_def api_emit_frame)
next
  case (QuerySettled r)
  assume "timer_inv w"
  then show ?thesis using QuerySettled by (simp add: timer_inv_def querySettled_frame)
qed

lemma run_inv: "timer_inv w \<Longrightarrow> timer_inv (run es w)"
  by (induction es arbitrary: w) (simp_all add: step_inv)

lemma activate_inv: "timer_inv (activate t0)"
  by (simp add: timer_inv_def mount_defs)

subsection \<open>Hidden and hovered runs of the event loop\<close>

lemma fire_hidden: "\<not> visible (state w) \<Longrightarrow> \<not> visible (state (fire d w))"
  by (cases "hovered w"; cases "mounted w")
     (simp_all add: fire_hovered fire_not_hovered fire_unmounted)

lemma run_until_hidden: "\<not> visible (state w) \<Longrightarrow> \<not> visible (state (run_until T w))"
proof (induction T w rule: run_until.induct)
  case (1 T w)
  show ?case
  proof (cases "earliest (timers w)")
    case None
    then show ?thesis using "1.prems" by (simp add: run_until_idle)
  next
    case (Some d)
    show ?thesis
    proof (cases "d \<le> T")
      case True
      have "\<not> visible (state (fire d w))" using "1.prems" by (rule fire_hidden)
      then have "\<not> visible (state (run_until T (fire d w)))"
        using Some True by (rule "1.IH"[rotated 2])
      then show ?thesis using Some True by (simp add: run_until_fire)
    next
      case False
      then show ?thesis using Some "1.prems" by (simp add: run_until_later)
    qed
  qed
qed

lemma step_hidden:
  assumes "\<not> visible (state w)" and "e \<noteq> PointerMove"
  shows "\<not> visible (state (step e w))"
proof (cases e)
  case PointerMove
  then show ?thesis using assms(2) by simp
next
  case PointerEnter
  then show ?thesis using assms(1) by (simp add: onMouseOver_def)
next
  case PointerLeave
  then show ?thesis using assms(1) by (simp add: onMouseOut_def)
next
  case (Elapse ms)
  then show ?thesis using assms(1) by (simp add: elapse_def run_until_hidden)
next
  case (ApiEvent topic p)
  then show ?thesis using assms(1) by (simp add: api_emit_frame)
next
  case (QuerySettled r)
  then show ?thesis using assms(1) by (simp add: querySettled_frame)
qed

lemma run_until_hovered:
  "hovered w \<Longrightarrow>
   state (run_until T w) = state w \<and> hovered (run_until T w)
   \<and> length (timers (run_until T w)) = length (timers w)"
proof (induction T w rule: run_until.induct)
  case (1 T w)
  show ?case
  proof (cases "earliest (timers w)")
    case None
    then show ?thesis using "1.prems" by (simp add: run_until_idle)
  next
    case (Some d)
    show ?thesis
    proof (cases "d \<le> T")
      case True
      have mem: "d \<in> set (timers w)" using Some by (rule earliest_mem)
      have f: "hovered (fire d w)" "state (fire d w) = state w"
        "length (timers (fire d w)) = length (timers w)"
        using "1.prems" mem by (simp_all add: fire_hovered length_remove1) (cases "timers w", simp_all)
      have "state (run_until T (fire d w)) = state (fire d w) \<and> hovered (run_until T (fire d w))
          \<and> length (timers (run_until T (fire d w))) = length (timers (fire d w))"
        using Some True f(1) by (rule "1.IH")
      then show ?thesis using Some True f by (simp add: run_until_fire)
    next
      case False
      then show ?thesis using Some "1.prems" by (simp add: run_until_later)
    qed
  qed
qed

lemma earliest_le: "earliest ds = Some d \<Longrightarrow> x \<in> set ds \<Longrightarrow> d \<le> x"
proof (induction ds arbitrary: d)
  case Nil
  then show ?case by simp
next
  case (Cons a ds)
  show ?case
  proof (cases "earliest ds")
    case None
    then have "ds = []" by (cases ds) (simp_all split: option.splits)
    then show ?thesis using Cons.prems by simp
  next
    case (Some e)
    then have d: "d = min a e" using Cons.prems(1) by simp
    show ?thesis
    proof (cases "x = a")
      case True
      then show ?thesis using d by simp
    next
      case False
      then have "x \<in> set ds" using Cons.prems(2) by simp
      then have "e \<le> x" using Some by (intro Cons.IH)
      then show ?thesis using d by simp
    qed
  qed
qed

lemma run_until_pending_later: "x \<in> set (timers (run_until T w)) \<Longrightarrow> T < x"
proof (induction T w rule: run_until.induct)
  case (1 T w)
  show ?case
  proof (cases "earliest (timers w)")
    case None
    then have "timers w = []" by (cases "timers w") (simp_all split: option.splits)
    then show ?thesis using "1.prems" None by (simp add: run_until_idle)
  next
    case (Some d)
    show ?thesis
    proof (cases "d \<le> T")
      case True
      have "x \<in> set (timers (run_until T (fire d w)))"
        using "1.prems" Some True by (simp add: run_until_fire)
      with Some True show ?thesis by (rule "1.IH")
    next
      case False
      then have "x \<in> set (timers w)" using "1.prems" Some by (simp add: run_until_later)
      then have "d \<le> x" using Some by (intro earliest_le)
      then show ?thesis using False by simp
    qed
  qed
qed

lemma hovered_periods:
  "hovered w \<Longrightarrow> timers w = [now w + 4000] \<Longrightarrow>
   run_until (now w + n * 4000) w
     = w\<lparr>now := now w + n * 4000, timers := [now w + n * 4000 + 4000]\<rparr>"
proof (induction n arbitrary: w)
  case 0
  then show ?case by (simp add: run_until_later)
next
  case (Suc n)
  define T where "T = now w + Suc n * 4000"
  define v where "v = w\<lparr>now := now w + 4000, timers := [now w + 8000]\<rparr>"
  have v: "hovered v" "timers v = [now v + 4000]" "T = now v + n * 4000"
    using Suc.prems by (simp_all add: v_def T_def)
  have "run_until T w = run_until T (fire (now w + 4000) w)"
    using Suc.prems by (simp add: run_until_fire T_def)
  also have "fire (now w + 4000) w = v"
    using Suc.prems by (simp add: fire_hovered v_def)
  also have "run_until T v = v\<lparr>now := now v + n * 4000, timers := [now v + n * 4000 + 4000]\<rparr>"
    unfolding v(3) using v(1,2) by (rule Suc.IH)
  finally show ?case
    by (simp add: T_def v_def add_ac)
qed

subsection \<open>The event loop after deactivation\<close>

lemma run_until_unmounted:
  "\<not> mounted w \<Longrightarrow>
   state (run_until T w) = state w \<and> renders (run_until T w) = renders w
   \<and> \<not> mounted (run_until T w)"
proof (induction T w rule: run_until.induct)
  case (1 T w)
  show ?case
  proof (cases "earliest (timers w)")
    case None
    then show ?thesis using "1.prems" by (simp add: run_until_idle)
  next
    case (Some d)
    show ?thesis
    proof (cases "d \<le> T")
      case True
      have f: "\<not> mounted (fire d w)" "state (fire d w) = state w"
        "renders (fire d w) = renders w"
        using "1.prems" by (cases "hovered w"; simp add: fire_hovered fire_unmounted)+
      have "state (run_until T (fire d w)) = state (fire d w)
          \<and> renders (run_until T (fire d w)) = renders (fire d w)
          \<and> \<not> mounted (run_until T (fire d w))"
        using Some True f(1) by (rule "1.IH")
      then show ?thesis using Some True f by (simp add: run_until_fire)
    next
      case False
      then show ?thesis using Some "1.prems" by (simp add: run_until_later)
    qed
  qed
qed

section \<open>The claims\<close>

text \<open>
  C1. Each of the four API event callbacks should update exactly its own field of the media
  state. The video availability callback does not: it never changes \<open>videoEnabled\<close>,
  whatever the prior state and the payload, and on a mounted component it writes its
  \<open>enabled\<close> payload into \<open>videoMuted\<close>; on a freshly activated component,
  \<open>{enabled: true}\<close> leaves \<open>videoEnabled\<close> false and turns \<open>videoMuted\<close> true.
\<close>

theorem videoEnabledListener_writes_videoMuted:
  "videoMuted (state (videoEnabledListener (Payload m e) w))
       = (if mounted w then e else videoMuted (state w))
   \<and> videoEnabled (state (videoEnabledListener (Payload m e) w)) = videoEnabled (state w)
   \<and> videoEnabled (state (videoEnabledListener (Payload JUndefined (JBool True)) (activate 0)))
       = JBool False
   \<and> videoMuted (state (videoEnabledListener (Payload JUndefined (JBool True)) (activate 0)))
       = JBool True"
  by (simp add: state_setState mount_defs)

text \<open>
  C2. Deactivation should unsubscribe every (topic, handler) pair that activation subscribed.
  It names two topics that were never subscribed, so after activation and
  \<open>componentWillUnmount\<close> the two availability listeners are still registered.
\<close>

theorem unmount_leaves_enabled_listeners:
  "apiListeners (componentWillUnmount (activate t0)) =
     [(''audioEnabledStatusChanged'', AudioEnabledListener),
      (''videoEnabledStatusChanged'', VideoEnabledListener)]"
  by (simp add: mount_defs)

text \<open>
  C3, as stated: after deactivation no pending hide callback ever fires. Deactivation leaves
  the callback pending, and it runs when it is due: 4001 ms after activation and immediate
  deactivation the callback armed at activation is spent, and with the pointer over the
  toolbar it has armed a new callback, due at 8000, on the deactivated component.
\<close>

theorem unmount_timer_counterexample:
  "timers (deactivate (activate 0)) = [4000]
   \<and> timers (elapse 4001 (deactivate (activate 0))) = []
   \<and> timers (elapse 4001 (deactivate (onMouseOver (activate 0)))) = [8000]"
  by (simp add: mount_defs time_simps onMouseOver_def)

text \<open>
  C3, amended: deactivation does not cancel the hide callback. It leaves the pending
  callbacks, the state, the hover flag and the clock as they are, so a callback pending at
  deactivation still runs when it is due: with \<open>hovered\<close> false nothing stays pending
  afterwards, with \<open>hovered\<close> true one fresh callback is pending in its place. Whatever
  time passes after deactivation, the visibility state, like the rest of the state, is never
  written and nothing renders: the \<open>setState\<close> of the callback is discarded.
\<close>

theorem unmount_keeps_timer:
  "timers (deactivate w) = timers w
   \<and> state (deactivate w) = state w
   \<and> hovered (deactivate w) = hovered w
   \<and> now (deactivate w) = now w
   \<and> state (elapse ms (deactivate w)) = state w
   \<and> renders (elapse ms (deactivate w)) = renders w
   \<and> (timers w = [d] \<and> d \<le> now w + ms \<and> \<not> hovered w \<longrightarrow>
        timers (elapse ms (deactivate w)) = [])
   \<and> (timers w = [d] \<and> d \<le> now w + ms \<and> hovered w \<longrightarrow>
        length (timers (elapse ms (deactivate w))) = 1
        \<and> timers (elapse ms (deactivate w)) \<noteq> [d])"
proof -
  let ?u = "deactivate w"
  have frame: "timers ?u = timers w" "state ?u = state w" "hovered ?u = hovered w"
    "now ?u = now w" "renders ?u = renders w" "\<not> mounted ?u"
    by (simp_all add: deactivate_def componentWillUnmount_def window_removeEventListener_def
        api_removeListener_def)
  have still: "state (elapse ms ?u) = state w \<and> renders (elapse ms ?u) = renders w"
    using run_until_unmounted [OF frame(6), of "now ?u + ms"] by (simp add: elapse_def frame)
  have cold: "timers (elapse ms ?u) = []"
    if "timers w = [d]" "d \<le> now w + ms" "\<not> hovered w"
    using that by (simp add: time_simps frame)
  have warm: "length (timers (elapse ms ?u)) = 1"
    if "timers w = [d]" "hovered w"
    using that run_until_hovered [of ?u "now ?u + ms"] by (simp add: elapse_def frame)
  have gone: "timers (elapse ms ?u) \<noteq> [d]"
    if "d \<le> now w + ms"
  proof
    assume "timers (elapse ms ?u) = [d]"
    then have "d \<in> set (timers (run_until (now w + ms) ?u))"
      by (simp add: elapse_def frame)
    then have "now w + ms < d" by (rule run_until_pending_later)
    then show False using that by simp
  qed
  show ?thesis using frame(1-4) still cold warm gone by blast
qed

theorem unmount_keeps_timer_witness:
  "timers (activate 0) = [4000] \<and> 4000 \<le> now (activate 0) + 4000 \<and> \<not> hovered (activate 0)
   \<and> visible (state (elapse 4000 (deactivate (activate 0))))
   \<and> timers (elapse 4000 (deactivate (activate 0))) = []
   \<and> timers (onMouseOver (activate 0)) = [4000] \<and> hovered (onMouseOver (activate 0))
   \<and> visible (state (elapse 4000 (deactivate (onMouseOver (activate 0)))))
   \<and> length (timers (elapse 4000 (deactivate (onMouseOver (activate 0))))) = 1
   \<and> timers (elapse 4000 (deactivate (onMouseOver (activate 0)))) \<noteq> [4000]"
  using unmount_keeps_timer [of "activate 0" 4000 4000]
    unmount_keeps_timer [of "onMouseOver (activate 0)" 4000 4000]
  by (simp add: mount_defs onMouseOver_def)

text \<open>
  C4. For every state, the rendered view-models follow the derivation table: microphone is
  enabled as \<open>audioEnabled\<close> and toggled as \<open>audioMuted\<close> when \<open>audioEnabled\<close> holds and as
  true otherwise; camera likewise from \<open>videoEnabled\<close> and \<open>videoMuted\<close>; hangup is always
  enabled and never toggled.
\<close>

theorem derivation_table:
  "map_option enabled (viewModel w ''microphone'') = Some (audioEnabled (state w))
   \<and> map_option toggled (viewModel w ''microphone'')
       = Some (if truthy (audioEnabled (state w)) then audioMuted (state w) else JBool True)
   \<and> map_option enabled (viewModel w ''camera'') = Some (videoEnabled (state w))
   \<and> map_option toggled (viewModel w ''camera'')
       = Some (if truthy (videoEnabled (state w)) then videoMuted (state w) else JBool True)
   \<and> map_option enabled (viewModel w ''hangup'') = Some (JBool True)
   \<and> map_option toggled (viewModel w ''hangup'') = Some (JBool False)"
  by (simp add: viewModel_def render_def toolbarButtons_def renderButton_def)

text \<open>
  C5. When a hide callback runs with \<open>hovered\<close> true, the state is left alone and exactly
  one fresh callback is armed, due 4000 ms after the run; with \<open>hovered\<close> false, on a
  mounted component, \<open>visible\<close> becomes false and nothing is armed. A callback armed now
  does not run within the next 3999 ms and runs at 4000 ms; with \<open>hovered\<close> held true it is
  re-armed period after period, for any number of periods, and the state never changes. Once
  hidden, the toolbar stays hidden under every event but a pointer move.
\<close>

theorem hide_timer_fires:
  "(hovered w \<longrightarrow>
      fire d w = w\<lparr>now := max (now w) d,
                   timers := remove1 d (timers w) @ [max (now w) d + 4000]\<rparr>)
   \<and> (mounted w \<and> \<not> hovered w \<longrightarrow>
      fire d w = w\<lparr>now := max (now w) d, timers := remove1 d (timers w),
                   state := (state w)\<lparr>visible := False\<rparr>, renders := Suc (renders w)\<rparr>)
   \<and> (timers w = [now w + 4000] \<and> ms < 4000 \<longrightarrow> elapse ms w = w\<lparr>now := now w + ms\<rparr>)
   \<and> (timers w = [now w + 4000] \<and> hovered w \<longrightarrow>
      elapse (n * 4000) w = w\<lparr>now := now w + n * 4000, timers := [now w + n * 4000 + 4000]\<rparr>)
   \<and> (mounted w \<and> timers w = [now w + 4000] \<and> \<not> hovered w \<longrightarrow>
      elapse 4000 w = w\<lparr>now := now w + 4000, timers := [],
                         state := (state w)\<lparr>visible := False\<rparr>, renders := Suc (renders w)\<rparr>)
   \<and> (\<not> visible (state w) \<and> e \<noteq> PointerMove \<longrightarrow> \<not> visible (state (step e w)))"
proof (intro conjI impI)
  assume "hovered w"
  then show "fire d w = w\<lparr>now := max (now w) d,
                   timers := remove1 d (timers w) @ [max (now w) d + 4000]\<rparr>"
    by (rule fire_hovered)
next
  assume "mounted w \<and> \<not> hovered w"
  then show "fire d w = w\<lparr>now := max (now w) d, timers := remove1 d (timers w),
                   state := (state w)\<lparr>visible := False\<rparr>, renders := Suc (renders w)\<rparr>"
    by (simp add: fire_not_hovered)
next
  assume "timers w = [now w + 4000] \<and> ms < 4000"
  then show "elapse ms w = w\<lparr>now := now w + ms\<rparr>"
    by (simp add: elapse_def run_until_later)
next
  assume "timers w = [now w + 4000] \<and> hovered w"
  then show "elapse (n * 4000) w
      = w\<lparr>now := now w + n * 4000, timers := [now w + n * 4000 + 4000]\<rparr>"
    by (simp add: elapse_def hovered_periods)
next
  assume "mounted w \<and> timers w = [now w + 4000] \<and> \<not> hovered w"
  then show "elapse 4000 w = w\<lparr>now := now w + 4000, timers := [],
                         state := (state w)\<lparr>visible := False\<rparr>, renders := Suc (renders w)\<rparr>"
    by (simp add: time_simps)
next
  assume "\<not> visible (state w) \<and> e \<noteq> PointerMove"
  then show "\<not> visible (state (step e w))" by (simp add: step_hidden)
qed

theorem hide_timer_fires_witness:
  "mounted (activate 0)
   \<and> timers (activate 0) = [now (activate 0) + 4000] \<and> \<not> hovered (activate 0)
   \<and> elapse 3999 (activate 0) = (activate 0)\<lparr>now := 3999\<rparr>
   \<and> \<not> visible (state (elapse 4000 (activate 0)))
   \<and> timers (elapse 4000 (activate 0)) = []
   \<and> PointerLeave \<noteq> PointerMove
   \<and> \<not> visible (state (step PointerLeave (elapse 4000 (activate 0))))
   \<and> timers (onMouseOver (activate 0)) = [now (onMouseOver (activate 0)) + 4000]
   \<and> hovered (onMouseOver (activate 0))
   \<and> visible (state (elapse (3 * 4000) (onMouseOver (activate 0))))
   \<and> timers (elapse (3 * 4000) (onMouseOver (activate 0))) = [16000]"
  using hide_timer_fires [of "activate 0" 4000 3999 0 PointerLeave]
    hide_timer_fires [of "elapse 4000 (activate 0)" 0 0 0 PointerLeave]
    hide_timer_fires [of "onMouseOver (activate 0)" 4000 0 3 PointerLeave]
  by (simp add: mount_defs onMouseOver_def)

text \<open>
  C6. A pointer move that reaches the mounted component while the toolbar is hidden makes it
  visible and arms one hide callback due 4000 ms later; while the toolbar is visible it
  changes nothing at all: no state write, no render, no timer.
\<close>

theorem pointer_move:
  assumes "mounted w" and "windowListeners w = [(''mousemove'', MouseMove)]"
  shows "(\<not> visible (state w) \<longrightarrow>
            step PointerMove w =
              w\<lparr>timers := timers w @ [now w + 4000],
                state := (state w)\<lparr>visible := True\<rparr>,
                renders := Suc (renders w)\<rparr>)
       \<and> (visible (state w) \<longrightarrow> step PointerMove w = w)"
  using assms
  by (simp add: window_dispatchEvent_def mouseMove_def setState_def Let_def
      componentWillUpdate_def hideToolbarAfterTimeout_def setTimeout_def TOOLBAR_TIMEOUT_def)

theorem pointer_move_witness:
  "mounted (activate 0)
   \<and> windowListeners (activate 0) = [(''mousemove'', MouseMove)]
   \<and> visible (state (activate 0))
   \<and> step PointerMove (activate 0) = activate 0
   \<and> mounted (elapse 4000 (activate 0))
   \<and> windowListeners (elapse 4000 (activate 0)) = [(''mousemove'', MouseMove)]
   \<and> \<not> visible (state (elapse 4000 (activate 0)))
   \<and> timers (elapse 4000 (activate 0)) = []
   \<and> timers (step PointerMove (elapse 4000 (activate 0))) = [8000]
   \<and> visible (state (step PointerMove (elapse 4000 (activate 0))))"
proof -
  have up: "mounted (activate 0)"
    by (simp add: mount_defs)
  have shown: "windowListeners (activate 0) = [(''mousemove'', MouseMove)]"
    by (simp add: mount_defs)
  have hidden: "elapse 4000 (activate 0)
      = (activate 0)\<lparr>now := 4000, timers := [],
                     state := (state (activate 0))\<lparr>visible := False\<rparr>, renders := 1\<rparr>"
    by (simp add: mount_defs time_simps)
  have still_up: "mounted (elapse 4000 (activate 0))"
    by (simp add: hidden) (simp add: mount_defs)
  have listening: "windowListeners (elapse 4000 (activate 0)) = [(''mousemove'', MouseMove)]"
    by (simp add: hidden) (simp add: mount_defs)
  show ?thesis
    using pointer_move [OF up shown] pointer_move [OF still_up listening] up shown still_up
      listening
    by (simp add: hidden) (simp add: mount_defs)
qed

text \<open>
  C7. When the combined query is rejected, the reason is written to the console and nothing
  else changes; after a fresh activation the four media fields are therefore still false, and
  the microphone and camera view-models are both disabled and toggled.
\<close>

theorem query_rejection:
  assumes "promise_all results = Inl reason"
  shows "querySettled results w = w\<lparr>console := console w @ [reason]\<rparr>
    \<and> audioMuted (state (querySettled results (activate t0))) = JBool False
    \<and> videoMuted (state (querySettled results (activate t0))) = JBool False
    \<and> audioEnabled (state (querySettled results (activate t0))) = JBool False
    \<and> videoEnabled (state (querySettled results (activate t0))) = JBool False
    \<and> map_option enabled (viewModel (querySettled results (activate t0)) ''microphone'')
        = Some (JBool False)
    \<and> map_option toggled (viewModel (querySettled results (activate t0)) ''microphone'')
        = Some (JBool True)
    \<and> map_option enabled (viewModel (querySettled results (activate t0)) ''camera'')
        = Some (JBool False)
    \<and> map_option toggled (viewModel (querySettled results (activate t0)) ''camera'')
        = Some (JBool True)"
proof -
  have settled: "querySettled results v = v\<lparr>console := console v @ [reason]\<rparr>" for v
    using assms by (simp add: querySettled_def queryRejected_def console_error_def)
  have st: "state (querySettled results (activate t0)) = state (constructor t0)"
    by (simp add: settled mount_defs)
  show ?thesis
    by (simp add: settled[of w])
       (simp add: st viewModel_def render_def toolbarButtons_def renderButton_def
          constructor_def)
qed

theorem query_rejection_witness:
  "promise_all (Inr (JBool True), Inl ''timeout'', Inr JUndefined, Inr (JBool True))
     = Inl ''timeout''
   \<and> state (querySettled (Inr (JBool True), Inl ''timeout'', Inr JUndefined, Inr (JBool True))
        (activate 0))
      = \<lparr>visible = True, audioMuted = JBool False, videoMuted = JBool False,
         audioEnabled = JBool False, videoEnabled = JBool False\<rparr>
   \<and> console (querySettled (Inr (JBool True), Inl ''timeout'', Inr JUndefined, Inr (JBool True))
        (activate 0)) = [''timeout'']"
proof -
  have h: "promise_all (Inr (JBool True), Inl ''timeout'', Inr JUndefined, Inr (JBool True))
      = Inl ''timeout''"
    by simp
  show ?thesis
    using h query_rejection [OF h, of "activate 0" 0] by (simp add: mount_defs)
qed

text \<open>
  C8, as stated: an undefined payload field is treated as false. It is not: the audio
  availability callback of a mounted component, given a status whose \<open>enabled\<close> field is
  undefined, leaves \<open>audioEnabled\<close> different from false.
\<close>

theorem undefined_payload_counterexample:
  "audioEnabled (state (audioEnabledListener (Payload JUndefined JUndefined) (activate 0)))
     \<noteq> JBool False"
  by (simp add: state_setState mount_defs)

text \<open>
  C8, amended: on a mounted component the audio mute, video mute and audio availability
  callbacks store the payload field as received, so an undefined field leaves the
  corresponding media field undefined, and no error is raised; only the results of the
  initial combined query are replaced by false when they are undefined.
\<close>

theorem undefined_payload_stored:
  assumes "mounted w"
  shows "audioMuted (state (audioMutedListener (Payload JUndefined e) w)) = JUndefined
   \<and> videoMuted (state (videoMutedListener (Payload JUndefined e) w)) = JUndefined
   \<and> audioEnabled (state (audioEnabledListener (Payload m JUndefined) w)) = JUndefined
   \<and> state (queryResolved (JUndefined, JUndefined, JUndefined, JUndefined) w)
       = (state w)\<lparr>audioMuted := JBool False, videoMuted := JBool False,
                    audioEnabled := JBool False, videoEnabled := JBool False\<rparr>"
  using assms by (simp add: state_setState queryResolved_def)

theorem undefined_payload_stored_witness:
  "mounted (activate 0)
   \<and> audioMuted (state (audioMutedListener (Payload JUndefined JUndefined) (activate 0)))
       = JUndefined
   \<and> videoMuted (state (videoMutedListener (Payload JUndefined JUndefined) (activate 0)))
       = JUndefined
   \<and> audioEnabled (state (audioEnabledListener (Payload JUndefined JUndefined) (activate 0)))
       = JUndefined
   \<and> audioEnabled (state (queryResolved (JUndefined, JUndefined, JUndefined, JUndefined)
        (activate 0))) = JBool False"
proof -
  have up: "mounted (activate 0)"
    by (simp add: mount_defs)
  show ?thesis
    using up undefined_payload_stored [OF up, of JUndefined JUndefined] by simp
qed

text \<open>
  C9. In every state reached from activation by pointer moves, hover changes, the passing of
  time, API events and the settling of the query, in any order, at most one hide callback is
  pending.
\<close>

theorem at_most_one_timer: "length (timers (run es (activate t0))) \<le> 1"
proof -
  have "timer_inv (run es (activate t0))" by (rule run_inv) (rule activate_inv)
  then show ?thesis by (simp add: timer_inv_def split: if_splits)
qed

text \<open>
  C10. The rendered buttons come in the order of the descriptor map, camera, hangup,
  microphone, whatever the state.
\<close>

theorem render_order:
  "map fst (buttons (render w)) = [''camera'', ''hangup'', ''microphone'']
   \<and> map (buttonId \<circ> snd) (buttons (render w))
       = [''toolbar_button_camera'', ''toolbar_button_hangup'', ''toolbar_button_mute'']"
  by (simp add: render_def toolbarButtons_def renderButton_def)

end
